theory Spec2Isabelle
  imports Complex_Main "HOL-Library.Word"
begin

section \<open>JavaScript values\<close>

text \<open>
  The chat widget of \<^verbatim>\<open>static/js/script.js\<close> is one closure over a handful of page
  elements and the variable \<^verbatim>\<open>conversationId\<close>. The model below follows the script
  function by function. What the script leaves to the platform (property reads, truthiness,
  \<^verbatim>\<open>String.prototype.trim\<close>, \<^verbatim>\<open>JSON.stringify\<close>, the conversion of a value
  assigned to \<^verbatim>\<open>textContent\<close>) is written out as far as the script's behaviour
  depends on it. The limits of an engine's resources (its stack on a value nested very
  deeply) are not part of the model.

  A JavaScript string is a sequence of UTF-16 code units.
\<close>

type_synonym js_string = "16 word list"

definition js :: "string \<Rightarrow> js_string" where
  \<comment> \<open>an ASCII literal of the script, as code units\<close>
  "js cs = map of_char cs"

text \<open>
  The numbers \<^verbatim>\<open>response.json()\<close> can produce: a finite double by its value, the
  negative zero (from \<^verbatim>\<open>-0\<close>), and the two infinities (from a literal beyond the range
  of a double, such as \<^verbatim>\<open>1e999\<close>).
\<close>

datatype number =
    Finite rat
  | NegZero
  | PosInfinity
  | NegInfinity

text \<open>
  The values \<^verbatim>\<open>response.json()\<close> can produce, and \<^verbatim>\<open>undefined\<close>. An object is the
  list of its own properties in the order the engine enumerates them, each name once.
\<close>

datatype jsval =
    Undefined
  | Null
  | Boolean bool
  | Number number
  | String js_string
  | Array "jsval list"
  | Object "(js_string \<times> jsval) list"

datatype exn =
    TypeError
  | SyntaxError
  | Error jsval

fun Get :: "jsval \<Rightarrow> js_string \<Rightarrow> exn + jsval" where
  \<comment> \<open>\<^verbatim>\<open>v.k\<close> for a property name that no built-in prototype defines (the script reads
      \<^verbatim>\<open>status\<close>, \<^verbatim>\<open>conversation_id\<close>, \<^verbatim>\<open>response\<close> and \<^verbatim>\<open>error\<close>): reading a
      property of \<^verbatim>\<open>null\<close> or \<^verbatim>\<open>undefined\<close> throws, a missing property is
      \<^verbatim>\<open>undefined\<close>\<close>
  "Get Undefined k = Inl TypeError"
| "Get Null k = Inl TypeError"
| "Get (Object props) k = Inr (case map_of props k of None \<Rightarrow> Undefined | Some v \<Rightarrow> v)"
| "Get v k = Inr Undefined"

fun truthy :: "jsval \<Rightarrow> bool" where
  "truthy Undefined = False"
| "truthy Null = False"
| "truthy (Boolean b) = b"
| "truthy (Number n) = (n \<noteq> Finite 0 \<and> n \<noteq> NegZero)"
| "truthy (String s) = (s \<noteq> [])"
| "truthy (Array vs) = True"
| "truthy (Object props) = True"

fun ToString_throws :: "jsval \<Rightarrow> bool" where
  \<comment> \<open>whether converting the value to a string throws a TypeError: an object whose own
      \<^verbatim>\<open>toString\<close> property is not a function (no parsed JSON value is one) has no
      primitive value; an array joins the strings of its elements\<close>
  "ToString_throws (Object props) = (js ''toString'' \<in> fst ` set props)"
| "ToString_throws (Array vs) = (\<exists>v \<in> set vs. ToString_throws v)"
| "ToString_throws v = False"

definition is_whitespace :: "16 word \<Rightarrow> bool" where
  \<comment> \<open>the code units \<^verbatim>\<open>trim\<close> strips: WhiteSpace and LineTerminator of ECMAScript\<close>
  "is_whitespace c \<longleftrightarrow>
     c \<in> {0x0009, 0x000A, 0x000B, 0x000C, 0x000D, 0x0020, 0x00A0, 0x1680,
          0x2028, 0x2029, 0x202F, 0x205F, 0x3000, 0xFEFF}
     \<or> (0x2000 \<le> c \<and> c \<le> 0x200A)"

definition trim :: "js_string \<Rightarrow> js_string" where
  "trim s = rev (dropWhile is_whitespace (rev (dropWhile is_whitespace s)))"

fun JSON_stringify :: "jsval \<Rightarrow> jsval" where
  \<comment> \<open>\<^verbatim>\<open>JSON.stringify\<close>, the text standing for the value it denotes: an infinity is
      written \<^verbatim>\<open>null\<close> and the negative zero \<^verbatim>\<open>0\<close>; a property whose value is
      \<^verbatim>\<open>undefined\<close> is left out, an array element that is \<^verbatim>\<open>undefined\<close> is written
      \<^verbatim>\<open>null\<close>; for \<^verbatim>\<open>undefined\<close> itself there is no text\<close>
  "JSON_stringify (Number (Finite q)) = Number (Finite q)"
| "JSON_stringify (Number NegZero) = Number (Finite 0)"
| "JSON_stringify (Number PosInfinity) = Null"
| "JSON_stringify (Number NegInfinity) = Null"
| "JSON_stringify (Array vs) =
     Array (map (\<lambda>v. if v = Undefined then Null else JSON_stringify v) vs)"
| "JSON_stringify (Object props) =
     Object (map (\<lambda>(k, v). (k, JSON_stringify v))
       (filter (\<lambda>(k, v). v \<noteq> Undefined) props))"
| "JSON_stringify v = v"

fun plain_json :: "jsval \<Rightarrow> bool" where
  \<comment> \<open>the values a JSON text denotes exactly: nothing in them is \<^verbatim>\<open>undefined\<close>, an
      infinity or the negative zero\<close>
  "plain_json Undefined = False"
| "plain_json (Number n) = (case n of Finite q \<Rightarrow> True | _ \<Rightarrow> False)"
| "plain_json (Array vs) = (\<forall>v \<in> set vs. plain_json v)"
| "plain_json (Object props) = (\<forall>v \<in> snd ` set props. plain_json v)"
| "plain_json v = True"

section \<open>The page\<close>

text \<open>
  The children of \<^verbatim>\<open>.messages\<close>: a message \<^verbatim>\<open>div\<close> of class \<^verbatim>\<open>message user\<close> or
  \<^verbatim>\<open>message bot\<close> holding the value assigned to its \<^verbatim>\<open>textContent\<close>, or the
  \<^verbatim>\<open>div\<close> with id \<^verbatim>\<open>typing-indicator\<close>. No other element of the page carries that
  id. Layout (\<^verbatim>\<open>scrollToBottom\<close>) is not part of the model.
\<close>

datatype author = User | Bot

datatype node =
    Message author jsval
  | TypingIndicator

record request =
  req_url :: js_string
  req_method :: js_string
  req_headers :: "(js_string \<times> js_string) list"
  req_body :: jsval

text \<open>What the script does to the world outside its own variables, in the order it does it.\<close>

datatype effect =
    AssignConversationId jsval
  | AssignInputValue js_string
  | AppendChild node
  | RemoveChild node
  | Fetch request
  | ConsoleError exn

record state =
  messages :: "node list"
  inputValue :: js_string
  conversationId :: jsval
  inflight :: nat
  trace :: "effect list"

text \<open>
  \<^const>\<open>inflight\<close> counts the calls of \<^verbatim>\<open>sendMessage\<close> suspended at an
  \<^verbatim>\<open>await\<close>.
\<close>

definition emit :: "effect \<Rightarrow> state \<Rightarrow> state" where
  "emit e s = s\<lparr>trace := trace s @ [e]\<rparr>"

definition addMessage :: "jsval \<Rightarrow> bool \<Rightarrow> state \<Rightarrow> exn + state" where
  \<comment> \<open>the assignment to \<^verbatim>\<open>textContent\<close> converts the value to a string, before the
      node is appended\<close>
  "addMessage content isUser s =
     (if ToString_throws content then Inl TypeError
      else let messageDiv = Message (if isUser then User else Bot) content
           in Inr (emit (AppendChild messageDiv) (s\<lparr>messages := messages s @ [messageDiv]\<rparr>)))"

definition addBotMessage :: "jsval \<Rightarrow> state \<Rightarrow> exn + state" where
  "addBotMessage content s = addMessage content False s"

definition showTypingIndicator :: "state \<Rightarrow> state" where
  "showTypingIndicator s =
     emit (AppendChild TypingIndicator) (s\<lparr>messages := messages s @ [TypingIndicator]\<rparr>)"

definition hideTypingIndicator :: "state \<Rightarrow> state" where
  \<comment> \<open>\<^verbatim>\<open>getElementById\<close> finds the first element with the id, in document order\<close>
  "hideTypingIndicator s =
     (if TypingIndicator \<in> set (messages s)
      then emit (RemoveChild TypingIndicator)
             (s\<lparr>messages := remove1 TypingIndicator (messages s)\<rparr>)
      else s)"

definition error_text :: js_string where
  "error_text = js ''Es ist ein Fehler aufgetreten. Bitte versuche es sp'' @ [0xE4]
     @ js ''ter noch einmal.''"

definition chat_request :: "js_string \<Rightarrow> jsval \<Rightarrow> request" where
  \<comment> \<open>the arguments of \<^verbatim>\<open>fetch\<close>\<close>
  "chat_request message cid =
     \<lparr>req_url = js ''/api/chat'',
      req_method = js ''POST'',
      req_headers = [(js ''Content-Type'', js ''application/json'')],
      req_body = JSON_stringify
        (Object [(js ''message'', String message), (js ''conversation_id'', cid)])\<rparr>"

definition sendMessage :: "js_string \<Rightarrow> state \<Rightarrow> state" where
  \<comment> \<open>\<^verbatim>\<open>sendMessage\<close> up to its first \<^verbatim>\<open>await\<close>\<close>
  "sendMessage message s =
     (let s1 = showTypingIndicator s;
          s2 = emit (Fetch (chat_request message (conversationId s1))) s1
      in s2\<lparr>inflight := Suc (inflight s2)\<rparr>)"

text \<open>
  How the two awaited promises settle: \<^verbatim>\<open>fetch\<close> rejects, or resolves with a response
  of some HTTP status code whose \<^verbatim>\<open>json()\<close> rejects or resolves with the parsed body.
  Nothing of the model changes between the two.
\<close>

datatype fetch_result =
    Rejected exn
  | Resolved nat "exn + jsval"

definition new_Error :: "jsval \<Rightarrow> exn" where
  \<comment> \<open>\<^verbatim>\<open>new Error(m)\<close> converts its argument to a string\<close>
  "new_Error m = (if ToString_throws m then TypeError else Error m)"

definition try_block :: "jsval \<Rightarrow> state \<Rightarrow> state \<times> exn option" where
  \<comment> \<open>the rest of the \<^verbatim>\<open>try\<close> block once \<^verbatim>\<open>data\<close> is there: the state it leaves
      and the exception it throws, if any\<close>
  "try_block data s =
     (case Get data (js ''status'') of
        Inl e \<Rightarrow> (s, Some e)
      | Inr status \<Rightarrow>
          if status = String (js ''success'') then
            (case Get data (js ''conversation_id'') of
               Inl e \<Rightarrow> (s, Some e)
             | Inr cid \<Rightarrow>
                 let s1 = emit (AssignConversationId cid) (s\<lparr>conversationId := cid\<rparr>);
                     s2 = hideTypingIndicator s1
                 in (case Get data (js ''response'') of
                       Inl e \<Rightarrow> (s2, Some e)
                     | Inr r \<Rightarrow>
                         (case addBotMessage r s2 of
                            Inl e \<Rightarrow> (s2, Some e)
                          | Inr s3 \<Rightarrow> (s3, None))))
          else
            (case Get data (js ''error'') of
               Inl e \<Rightarrow> (s, Some e)
             | Inr err \<Rightarrow>
                 (s, Some (new_Error
                    (if truthy err then err else String (js ''Unknown error occurred''))))))"

definition catch_block :: "exn \<Rightarrow> state \<Rightarrow> state" where
  "catch_block e s =
     (let s1 = emit (ConsoleError e) s;
          s2 = hideTypingIndicator s1
      in case addBotMessage (String error_text) s2 of Inl _ \<Rightarrow> s2 | Inr s3 \<Rightarrow> s3)"

definition sendMessage_resume :: "fetch_result \<Rightarrow> state \<Rightarrow> state" where
  \<comment> \<open>\<^verbatim>\<open>sendMessage\<close> from the point where its promises have settled\<close>
  "sendMessage_resume r s =
     (let s0 = s\<lparr>inflight := inflight s - 1\<rparr>
      in case r of
           Rejected e \<Rightarrow> catch_block e s0
         | Resolved code (Inl e) \<Rightarrow> catch_block e s0
         | Resolved code (Inr data) \<Rightarrow>
             (case try_block data s0 of
                (s1, None) \<Rightarrow> s1
              | (s1, Some e) \<Rightarrow> catch_block e s1))"

definition submit_listener :: "state \<Rightarrow> state" where
  \<comment> \<open>the listener of the form's \<^verbatim>\<open>submit\<close> event; \<^verbatim>\<open>preventDefault\<close> keeps the
      browser from loading another page and changes nothing of the model\<close>
  "submit_listener s =
     (let message = trim (inputValue s)
      in if message \<noteq> [] then
           (case addMessage (String message) True s of
              Inl _ \<Rightarrow> s
            | Inr s1 \<Rightarrow> sendMessage message (emit (AssignInputValue []) (s1\<lparr>inputValue := []\<rparr>)))
         else s)"

definition click_listener :: "state \<Rightarrow> state" where
  \<comment> \<open>\<^verbatim>\<open>dispatchEvent\<close> runs the form's listener before it returns\<close>
  "click_listener s = submit_listener s"

definition keypress_listener :: "js_string \<Rightarrow> bool \<Rightarrow> state \<Rightarrow> state" where
  "keypress_listener key shiftKey s =
     (if key = js ''Enter'' \<and> \<not> shiftKey then submit_listener s else s)"

definition initChat :: "jsval \<Rightarrow> state \<Rightarrow> state" where
  "initChat GREETING s = (case addBotMessage GREETING s of Inl _ \<Rightarrow> s | Inr s1 \<Rightarrow> s1)"

definition page_loaded :: "jsval \<Rightarrow> state" where
  \<comment> \<open>the state the \<^verbatim>\<open>DOMContentLoaded\<close> listener leaves; \<^verbatim>\<open>GREETING\<close> comes from the
      page\<close>
  "page_loaded GREETING =
     initChat GREETING
       \<lparr>messages = [], inputValue = [], conversationId = Null, inflight = 0, trace = []\<rparr>"

section \<open>Page sessions\<close>

text \<open>
  What can happen after the page has loaded: the user edits the input field, one of the
  three listeners runs, or the promises of an exchange in flight settle. What the browser
  does by itself after a gesture (a submit event of its own after a click on a submit
  button) is one more event.
\<close>

datatype event =
    UserInput js_string
  | SubmitEvent
  | Click
  | KeyPress js_string bool
  | Settled fetch_result

fun enabled :: "state \<Rightarrow> event \<Rightarrow> bool" where
  "enabled s (Settled r) = (0 < inflight s)"
| "enabled s e = True"

fun step :: "state \<Rightarrow> event \<Rightarrow> state" where
  "step s (UserInput v) = s\<lparr>inputValue := v\<rparr>"
| "step s SubmitEvent = submit_listener s"
| "step s Click = click_listener s"
| "step s (KeyPress key shiftKey) = keypress_listener key shiftKey s"
| "step s (Settled r) = sendMessage_resume r s"

fun run :: "state \<Rightarrow> event list \<Rightarrow> state option" where
  "run s [] = Some s"
| "run s (e # es) = (if enabled s e then run (step s e) es else None)"


fun succeeds :: "fetch_result \<Rightarrow> bool" where
  \<comment> \<open>the parsed body's \<^verbatim>\<open>status\<close> is the success marker\<close>
  "succeeds (Resolved code (Inr data)) = (Get data (js ''status'') = Inr (String (js ''success'')))"
| "succeeds r = False"

definition indicators :: "state \<Rightarrow> nat" where
  "indicators s = count_list (messages s) TypingIndicator"

definition fetches :: "state \<Rightarrow> request list" where
  "fetches s = [r. Fetch r \<leftarrow> trace s]"

section \<open>Facts about the script's functions\<close>

subsection \<open>Trimming\<close>

lemma dropWhile_all_iff: "(\<forall>x \<in> set (dropWhile P xs). P x) \<longleftrightarrow> (\<forall>x \<in> set xs. P x)"
proof
  assume all: "\<forall>x \<in> set (dropWhile P xs). P x"
  have "dropWhile P xs = []"
  proof (rule ccontr)
    assume ne: "dropWhile P xs \<noteq> []"
    then have "\<not> P (hd (dropWhile P xs))" by (rule hd_dropWhile)
    moreover from ne have "hd (dropWhile P xs) \<in> set (dropWhile P xs)" by simp
    ultimately show False using all by blast
  qed
  then show "\<forall>x \<in> set xs. P x" by (simp only: dropWhile_eq_Nil_conv)
next
  assume "\<forall>x \<in> set xs. P x"
  then show "\<forall>x \<in> set (dropWhile P xs). P x" by (blast dest: set_dropWhileD)
qed

lemma trim_Nil_iff: "trim s = [] \<longleftrightarrow> (\<forall>c \<in> set s. is_whitespace c)"
  by (simp add: trim_def dropWhile_eq_Nil_conv dropWhile_all_iff)

lemma trim_Nil [simp]: "trim [] = []"
  by (simp add: trim_def)

subsection \<open>The typing indicator and the message list\<close>

lemma hide_messages [simp]:
  "messages (hideTypingIndicator s) = remove1 TypingIndicator (messages s)"
  by (simp add: hideTypingIndicator_def emit_def remove1_idem)

lemma hide_fields [simp]:
  "inflight (hideTypingIndicator s) = inflight s"
  "conversationId (hideTypingIndicator s) = conversationId s"
  "inputValue (hideTypingIndicator s) = inputValue s"
  by (simp_all add: hideTypingIndicator_def emit_def)

lemma hide_trace:
  "trace (hideTypingIndicator s) =
     trace s @ (if TypingIndicator \<in> set (messages s) then [RemoveChild TypingIndicator] else [])"
  by (simp add: hideTypingIndicator_def emit_def)

lemma hide_absent: "TypingIndicator \<notin> set (messages s) \<Longrightarrow> hideTypingIndicator s = s"
  by (simp add: hideTypingIndicator_def)

lemma count_list_remove1:
  "count_list (remove1 x xs) x = count_list xs x - 1"
  by (induction xs) auto

lemma indicators_hide [simp]:
  "indicators (hideTypingIndicator s) = indicators s - 1"
  by (simp add: indicators_def count_list_remove1)

lemma indicators_0_iff: "indicators s = 0 \<longleftrightarrow> TypingIndicator \<notin> set (messages s)"
  by (simp add: indicators_def count_list_0_iff)

lemma indicators_append [simp]:
  "indicators (s\<lparr>messages := messages s @ [TypingIndicator]\<rparr>) = Suc (indicators s)"
  "indicators (s\<lparr>messages := messages s @ [Message a c]\<rparr>) = indicators s"
  by (simp_all add: indicators_def)

lemma indicators_update [simp]:
  "indicators (s\<lparr>inflight := n\<rparr>) = indicators s"
  "indicators (s\<lparr>conversationId := v\<rparr>) = indicators s"
  "indicators (s\<lparr>inputValue := w\<rparr>) = indicators s"
  "indicators (s\<lparr>trace := t\<rparr>) = indicators s"
  "indicators (emit e s) = indicators s"
  by (simp_all add: indicators_def emit_def)

lemma addMessage_ok:
  "\<not> ToString_throws content \<Longrightarrow>
     addMessage content isUser s =
       Inr (s\<lparr>messages := messages s @ [Message (if isUser then User else Bot) content],
              trace := trace s @ [AppendChild (Message (if isUser then User else Bot) content)]\<rparr>)"
  by (simp add: addMessage_def emit_def Let_def)

lemma addMessage_throws:
  "ToString_throws content \<Longrightarrow> addMessage content isUser s = Inl TypeError"
  by (simp add: addMessage_def)

lemma addMessage_String:
  "addMessage (String m) isUser s =
     Inr (s\<lparr>messages := messages s @ [Message (if isUser then User else Bot) (String m)],
            trace := trace s @ [AppendChild (Message (if isUser then User else Bot) (String m))]\<rparr>)"
  by (simp add: addMessage_ok)

subsection \<open>The catch block and the try block\<close>

lemma catch_block_eq:
  "catch_block e s =
     (hideTypingIndicator (emit (ConsoleError e) s))
       \<lparr>messages := remove1 TypingIndicator (messages s) @ [Message Bot (String error_text)],
        trace := trace s @ [ConsoleError e]
          @ (if TypingIndicator \<in> set (messages s) then [RemoveChild TypingIndicator] else [])
          @ [AppendChild (Message Bot (String error_text))]\<rparr>"
  by (simp add: catch_block_def addBotMessage_def addMessage_ok Let_def hide_trace emit_def)

lemma catch_block_fields [simp]:
  "messages (catch_block e s) =
     remove1 TypingIndicator (messages s) @ [Message Bot (String error_text)]"
  "inflight (catch_block e s) = inflight s"
  "conversationId (catch_block e s) = conversationId s"
  "inputValue (catch_block e s) = inputValue s"
  by (simp_all add: catch_block_eq emit_def)

lemma catch_block_trace:
  "trace (catch_block e s) =
     trace s @ [ConsoleError e]
       @ (if TypingIndicator \<in> set (messages s) then [RemoveChild TypingIndicator] else [])
       @ [AppendChild (Message Bot (String error_text))]"
  by (simp add: catch_block_eq)

lemma indicators_catch_block [simp]:
  "indicators (catch_block e s) = indicators s - 1"
  by (simp add: indicators_def count_list_remove1)

lemma Get_defined: "Get data k = Inr v \<Longrightarrow> \<exists>w. Get data k' = Inr w"
  by (cases data) auto

lemma try_block_failure:
  assumes "Get data (js ''status'') \<noteq> Inr (String (js ''success''))"
  shows "\<exists>e. try_block data s = (s, Some e)"
proof (cases "Get data (js ''status'')")
  case (Inl e)
  then show ?thesis by (simp add: try_block_def)
next
  case (Inr status)
  with assms have ne: "status \<noteq> String (js ''success'')" by simp
  from Inr obtain err where "Get data (js ''error'') = Inr err"
    using Get_defined by blast
  with Inr ne show ?thesis by (simp add: try_block_def)
qed

lemma try_block_logs_error:
  assumes "Get data (js ''status'') = Inr status" and "status \<noteq> String (js ''success'')"
    and "Get data (js ''error'') = Inr (String txt)" and "txt \<noteq> []"
  shows "try_block data s = (s, Some (Error (String txt)))"
  using assms by (simp add: try_block_def new_Error_def)

lemma try_block_success:
  assumes "Get data (js ''status'') = Inr (String (js ''success''))"
    and "Get data (js ''conversation_id'') = Inr cid"
    and "Get data (js ''response'') = Inr r"
    and "\<not> ToString_throws r"
  shows "try_block data s =
     (s\<lparr>messages := remove1 TypingIndicator (messages s) @ [Message Bot r],
        conversationId := cid,
        trace := trace s @ [AssignConversationId cid]
          @ (if TypingIndicator \<in> set (messages s) then [RemoveChild TypingIndicator] else [])
          @ [AppendChild (Message Bot r)]\<rparr>, None)"
  using assms
  by (cases s)
    (simp add: try_block_def addBotMessage_def addMessage_ok Let_def emit_def
      hideTypingIndicator_def remove1_idem)

lemma try_block_render_throws:
  assumes "Get data (js ''status'') = Inr (String (js ''success''))"
    and "Get data (js ''conversation_id'') = Inr cid"
    and "Get data (js ''response'') = Inr r"
    and "ToString_throws r"
  shows "try_block data s =
     (hideTypingIndicator (emit (AssignConversationId cid) (s\<lparr>conversationId := cid\<rparr>)),
      Some TypeError)"
  using assms
  by (simp add: try_block_def addBotMessage_def addMessage_throws Let_def)

subsection \<open>A settled exchange\<close>

text \<open>
  Three things can happen when the promises of an exchange settle: the exchange has failed
  and the catch block runs on the state as it was; the body carries the success marker and
  its response is rendered; or the body carries the success marker, the identifier is stored
  and the indicator hidden, and rendering the response throws, so that the catch block runs
  after all.
\<close>

lemma resume_failure:
  assumes "\<not> succeeds r"
  shows "\<exists>e. sendMessage_resume r s = catch_block e (s\<lparr>inflight := inflight s - 1\<rparr>)"
proof (cases r)
  case (Rejected e)
  then show ?thesis by (auto simp: sendMessage_resume_def)
next
  case (Resolved code body)
  show ?thesis
  proof (cases body)
    case (Inl e)
    with Resolved show ?thesis by (auto simp: sendMessage_resume_def)
  next
    case (Inr data)
    with Resolved assms have "Get data (js ''status'') \<noteq> Inr (String (js ''success''))"
      by simp
    then obtain e where "try_block data (s\<lparr>inflight := inflight s - 1\<rparr>)
        = (s\<lparr>inflight := inflight s - 1\<rparr>, Some e)"
      using try_block_failure by blast
    with Resolved Inr show ?thesis by (auto simp: sendMessage_resume_def)
  qed
qed

lemma resume_success:
  assumes "Get data (js ''status'') = Inr (String (js ''success''))"
    and "Get data (js ''conversation_id'') = Inr cid"
    and "Get data (js ''response'') = Inr r"
    and "\<not> ToString_throws r"
  shows "sendMessage_resume (Resolved code (Inr data)) s =
     s\<lparr>messages := remove1 TypingIndicator (messages s) @ [Message Bot r],
       conversationId := cid,
       inflight := inflight s - 1,
       trace := trace s @ [AssignConversationId cid]
         @ (if TypingIndicator \<in> set (messages s) then [RemoveChild TypingIndicator] else [])
         @ [AppendChild (Message Bot r)]\<rparr>"
  by (cases s) (simp add: sendMessage_resume_def try_block_success [OF assms])

lemma resume_render_throws:
  assumes "Get data (js ''status'') = Inr (String (js ''success''))"
    and "Get data (js ''conversation_id'') = Inr cid"
    and "Get data (js ''response'') = Inr r"
    and "ToString_throws r"
  shows "sendMessage_resume (Resolved code (Inr data)) s =
     catch_block TypeError
       (hideTypingIndicator (emit (AssignConversationId cid)
          (s\<lparr>conversationId := cid, inflight := inflight s - 1\<rparr>)))"
  by (cases s) (simp add: sendMessage_resume_def try_block_render_throws [OF assms])

lemma resume_cases [case_names failure success render_throws]:
  obtains
    (failure) e where "\<not> succeeds r"
      and "sendMessage_resume r s = catch_block e (s\<lparr>inflight := inflight s - 1\<rparr>)"
  | (success) code data cid resp where "r = Resolved code (Inr data)"
      and "Get data (js ''status'') = Inr (String (js ''success''))"
      and "Get data (js ''conversation_id'') = Inr cid"
      and "Get data (js ''response'') = Inr resp"
      and "\<not> ToString_throws resp"
  | (render_throws) code data cid resp where "r = Resolved code (Inr data)"
      and "Get data (js ''status'') = Inr (String (js ''success''))"
      and "Get data (js ''conversation_id'') = Inr cid"
      and "Get data (js ''response'') = Inr resp"
      and "ToString_throws resp"
proof (cases "succeeds r")
  case False
  then show ?thesis using resume_failure [of r s] failure by blast
next
  case True
  then obtain code data where r: "r = Resolved code (Inr data)"
    and st: "Get data (js ''status'') = Inr (String (js ''success''))"
    by (cases r rule: succeeds.cases) auto
  from st obtain cid where cid: "Get data (js ''conversation_id'') = Inr cid"
    using Get_defined by blast
  from st obtain resp where resp: "Get data (js ''response'') = Inr resp"
    using Get_defined by blast
  show ?thesis
  proof (cases "ToString_throws resp")
    case True
    with r st cid resp show ?thesis by (rule render_throws)
  next
    case False
    with r st cid resp show ?thesis by (rule success)
  qed
qed

lemma conversationId_resume_failure:
  "\<not> succeeds r \<Longrightarrow> conversationId (sendMessage_resume r s) = conversationId s"
  using resume_failure [of r s] by auto

lemma conversationId_resume_success:
  assumes "Get data (js ''status'') = Inr (String (js ''success''))"
    and "Get data (js ''conversation_id'') = Inr cid"
  shows "conversationId (sendMessage_resume (Resolved code (Inr data)) s) = cid"
proof (cases rule: resume_cases [of "Resolved code (Inr data)" s])
  case (failure e)
  with assms show ?thesis by simp
next
  case (success code' data' cid' resp)
  with assms show ?thesis by (simp add: resume_success)
next
  case (render_throws code' data' cid' resp)
  with assms show ?thesis by (simp add: resume_render_throws emit_def)
qed

lemma indicators_resume_le:
  assumes "indicators s \<le> inflight s" and "0 < inflight s"
  shows "indicators (sendMessage_resume r s) \<le> inflight (sendMessage_resume r s)"
proof (cases rule: resume_cases [of r s])
  case (failure e)
  with assms show ?thesis by simp
next
  case (success code data cid resp)
  with assms show ?thesis
    by (simp add: resume_success indicators_def count_list_remove1)
next
  case (render_throws code data cid resp)
  with assms show ?thesis by (simp add: resume_render_throws emit_def)
qed



subsection \<open>A submission\<close>

lemma submit_listener_eq:
  assumes "trim (inputValue s) = m" and "m \<noteq> []"
  shows "submit_listener s =
     s\<lparr>messages := messages s @ [Message User (String m), TypingIndicator],
       inputValue := [],
       inflight := Suc (inflight s),
       trace := trace s @ [AppendChild (Message User (String m)), AssignInputValue [],
         AppendChild TypingIndicator, Fetch (chat_request m (conversationId s))]\<rparr>"
  using assms
  by (cases s)
    (simp add: submit_listener_def addMessage_String sendMessage_def showTypingIndicator_def
      emit_def Let_def)

lemma conversationId_submit [simp]:
  "conversationId (submit_listener s) = conversationId s"
proof (cases "trim (inputValue s) = []")
  case True
  then show ?thesis by (simp add: submit_listener_def)
next
  case False
  then show ?thesis by (simp add: submit_listener_eq [OF refl])
qed

lemma indicators_submit_le:
  "indicators s \<le> inflight s \<Longrightarrow> indicators (submit_listener s) \<le> inflight (submit_listener s)"
proof (cases "trim (inputValue s) = []")
  case True
  moreover assume "indicators s \<le> inflight s"
  ultimately show ?thesis by (simp add: submit_listener_def)
next
  case False
  moreover assume "indicators s \<le> inflight s"
  ultimately show ?thesis
    by (simp add: submit_listener_eq [OF refl] indicators_def)
qed


subsection \<open>Requests\<close>

lemma fetches_emit [simp]:
  "fetches (emit (Fetch q) s) = fetches s @ [q]"
  "fetches (emit (AppendChild n) s) = fetches s"
  "fetches (emit (RemoveChild n) s) = fetches s"
  "fetches (emit (ConsoleError e) s) = fetches s"
  "fetches (emit (AssignConversationId v) s) = fetches s"
  "fetches (emit (AssignInputValue w) s) = fetches s"
  by (simp_all add: fetches_def emit_def)

lemma fetches_update [simp]:
  "fetches (s\<lparr>inflight := n\<rparr>) = fetches s"
  "fetches (s\<lparr>conversationId := v\<rparr>) = fetches s"
  "fetches (s\<lparr>inputValue := w\<rparr>) = fetches s"
  "fetches (s\<lparr>messages := ms\<rparr>) = fetches s"
  by (simp_all add: fetches_def)

lemma fetches_hide [simp]: "fetches (hideTypingIndicator s) = fetches s"
  by (simp add: hideTypingIndicator_def)

lemma fetches_catch_block [simp]: "fetches (catch_block e s) = fetches s"
  by (simp add: fetches_def catch_block_trace)

lemma fetches_resume_success:
  assumes "Get data (js ''status'') = Inr (String (js ''success''))"
    and "Get data (js ''conversation_id'') = Inr cid"
    and "Get data (js ''response'') = Inr r"
    and "\<not> ToString_throws r"
  shows "fetches (sendMessage_resume (Resolved code (Inr data)) s) = fetches s"
  by (simp add: resume_success [OF assms] fetches_def)

lemma fetches_resume: "fetches (sendMessage_resume r s) = fetches s"
proof (cases rule: resume_cases [of r s])
  case (failure e)
  then show ?thesis by simp
next
  case (success code data cid resp)
  then show ?thesis by (simp add: fetches_resume_success)
next
  case (render_throws code data cid resp)
  then show ?thesis by (simp add: resume_render_throws)
qed

lemma fetches_sendMessage:
  "fetches (sendMessage m s) = fetches s @ [chat_request m (conversationId s)]"
  by (simp add: sendMessage_def Let_def showTypingIndicator_def emit_def fetches_def)

lemma fetches_submit:
  assumes "trim (inputValue s) = m" and "m \<noteq> []"
  shows "fetches (submit_listener s) = fetches s @ [chat_request m (conversationId s)]"
  by (simp add: submit_listener_eq [OF assms] fetches_def)

lemma plain_json_defined: "plain_json v \<Longrightarrow> v \<noteq> Undefined"
  by auto

lemma JSON_stringify_plain: "plain_json v \<Longrightarrow> JSON_stringify v = v"
proof (induction v rule: JSON_stringify.induct)
  case (5 vs)
  have "map (\<lambda>v. if v = Undefined then Null else JSON_stringify v) vs = vs"
  proof (rule map_idI)
    fix x assume x: "x \<in> set vs"
    with "5.prems" have p: "plain_json x" by simp
    then have "x \<noteq> Undefined" by (rule plain_json_defined)
    with "5.IH" [OF x] p show "(if x = Undefined then Null else JSON_stringify x) = x" by simp
  qed
  then show ?case by simp
next
  case (6 props)
  have all: "plain_json v" if "(k, v) \<in> set props" for k v
    using "6.prems" that by force
  have keep: "filter (\<lambda>(k, v). v \<noteq> Undefined) props = props"
    by (rule filter_True) (auto dest: all plain_json_defined)
  have "map (\<lambda>(k, v). (k, JSON_stringify v)) props = props"
  proof (rule map_idI)
    fix x assume x: "x \<in> set props"
    obtain k v where kv: "x = (k, v)" by (cases x)
    with x have mem: "(k, v) \<in> set (filter (\<lambda>(k, v). v \<noteq> Undefined) props)"
      by (simp only: keep)
    from x kv have "plain_json v" by (auto dest: all)
    with "6.IH" [OF mem refl] kv show "(case x of (k, v) \<Rightarrow> (k, JSON_stringify v)) = x"
      by simp
  qed
  with keep show ?case by simp
qed (auto split: number.splits)

lemma JSON_stringify_defined: "v \<noteq> Undefined \<Longrightarrow> JSON_stringify v \<noteq> Undefined"
  by (induction v rule: JSON_stringify.induct) simp_all

lemma req_body_chat_request:
  "req_body (chat_request m cid) =
     (if cid = Undefined then Object [(js ''message'', String m)]
      else Object [(js ''message'', String m), (js ''conversation_id'', JSON_stringify cid)])"
  by (simp add: chat_request_def)

lemma Get_chat_request_conversation_id:
  "Get (req_body (chat_request m cid)) (js ''conversation_id'') = Inr (JSON_stringify cid)"
  by (simp add: req_body_chat_request js_def)

subsection \<open>Steps and runs\<close>

lemma conversationId_step:
  assumes "\<forall>r. e = Settled r \<longrightarrow> \<not> succeeds r"
  shows "conversationId (step s e) = conversationId s"
  using assms
  by (cases e) (simp_all add: click_listener_def keypress_listener_def conversationId_resume_failure)

lemma conversationId_run_no_success:
  assumes "run s es = Some s'" and "\<forall>r. Settled r \<in> set es \<longrightarrow> \<not> succeeds r"
  shows "conversationId s' = conversationId s"
  using assms
proof (induction es arbitrary: s)
  case Nil
  then show ?case by simp
next
  case (Cons e es)
  from Cons.prems(1) have run: "run (step s e) es = Some s'"
    by (simp split: if_splits)
  from Cons.prems(2) have "\<forall>r. e = Settled r \<longrightarrow> \<not> succeeds r" by simp
  then have "conversationId (step s e) = conversationId s" by (rule conversationId_step)
  moreover from Cons.prems(2) have "\<forall>r. Settled r \<in> set es \<longrightarrow> \<not> succeeds r" by simp
  from Cons.IH [OF run this] have "conversationId s' = conversationId (step s e)" .
  ultimately show ?case by simp
qed

lemma conversationId_page_loaded [simp]: "conversationId (page_loaded G) = Null"
  by (simp add: page_loaded_def initChat_def addBotMessage_def addMessage_def emit_def Let_def)

lemma indicators_step_le:
  assumes "indicators s \<le> inflight s" and "enabled s e"
  shows "indicators (step s e) \<le> inflight (step s e)"
  using assms
  by (cases e)
    (simp_all add: click_listener_def keypress_listener_def indicators_submit_le
      indicators_resume_le)

lemma indicators_run_le:
  assumes "run s es = Some s'" and "indicators s \<le> inflight s"
  shows "indicators s' \<le> inflight s'"
  using assms
proof (induction es arbitrary: s)
  case Nil
  then show ?case by simp
next
  case (Cons e es)
  from Cons.prems(1) have en: "enabled s e" and run: "run (step s e) es = Some s'"
    by (simp_all split: if_splits)
  from Cons.prems(2) en have "indicators (step s e) \<le> inflight (step s e)"
    by (rule indicators_step_le)
  with run show ?case by (rule Cons.IH)
qed

lemma page_loaded_indicators: "indicators (page_loaded G) = 0"
  by (simp add: page_loaded_def initChat_def addBotMessage_def addMessage_def emit_def Let_def
      indicators_def)



section \<open>The claims\<close>

subsection \<open>A successful response\<close>

text \<open>
  C1, as amended. Let the parsed body of a response carry the success marker in its
  \<^verbatim>\<open>status\<close> field. Then the exchange first assigns the body's \<^verbatim>\<open>conversation_id\<close>
  (\<^verbatim>\<open>undefined\<close> when the body has none) to the stored identifier and next removes the
  first typing indicator of the list, if there is one. After that it appends the body's
  \<^verbatim>\<open>response\<close> as a bot message and does nothing else, provided the response is a value
  the page can turn into text (any string, number, boolean or \<^verbatim>\<open>null\<close>, a missing
  field, an object without a \<^verbatim>\<open>toString\<close> property of its own, an array of such values);
  for any other response the assignment to \<^verbatim>\<open>textContent\<close> throws, and the catch block
  removes one more indicator and appends the fixed error text. In both cases the request of
  the next submission is built from the identifier just stored: its body carries the
  identifier as \<^verbatim>\<open>JSON.stringify\<close> writes it, which is the identifier itself when
  nothing in it is \<^verbatim>\<open>undefined\<close>, an infinity or the negative zero (every string is such
  a value), and has no \<^verbatim>\<open>conversation_id\<close> field when the identifier is
  \<^verbatim>\<open>undefined\<close>.
\<close>

theorem success_response_rendered:
  assumes "Get data (js ''status'') = Inr (String (js ''success''))"
    and "Get data (js ''conversation_id'') = Inr cid"
    and "Get data (js ''response'') = Inr r"
  shows "conversationId (sendMessage_resume (Resolved code (Inr data)) s) = cid \<and>
     (\<exists>rest. trace (sendMessage_resume (Resolved code (Inr data)) s)
        = trace s @ [AssignConversationId cid]
          @ (if TypingIndicator \<in> set (messages s) then [RemoveChild TypingIndicator] else [])
          @ rest) \<and>
     (\<not> ToString_throws r \<longrightarrow>
        messages (sendMessage_resume (Resolved code (Inr data)) s)
          = remove1 TypingIndicator (messages s) @ [Message Bot r] \<and>
        trace (sendMessage_resume (Resolved code (Inr data)) s)
          = trace s @ [AssignConversationId cid]
            @ (if TypingIndicator \<in> set (messages s) then [RemoveChild TypingIndicator] else [])
            @ [AppendChild (Message Bot r)]) \<and>
     (ToString_throws r \<longrightarrow>
        messages (sendMessage_resume (Resolved code (Inr data)) s)
          = remove1 TypingIndicator (remove1 TypingIndicator (messages s))
            @ [Message Bot (String error_text)]) \<and>
     (\<forall>v. trim v \<noteq> [] \<longrightarrow>
        fetches (step (step (sendMessage_resume (Resolved code (Inr data)) s) (UserInput v))
            SubmitEvent)
          = fetches s @ [chat_request (trim v) cid]) \<and>
     (\<forall>m. req_body (chat_request m cid) =
        (if cid = Undefined then Object [(js ''message'', String m)]
         else Object [(js ''message'', String m),
                (js ''conversation_id'', JSON_stringify cid)])) \<and>
     (plain_json cid \<longrightarrow> JSON_stringify cid = cid)"
proof -
  let ?s' = "sendMessage_resume (Resolved code (Inr data)) s"
  let ?hid = "if TypingIndicator \<in> set (messages s) then [RemoveChild TypingIndicator] else []"
  have 1: "conversationId ?s' = cid"
    using assms(1,2) by (rule conversationId_resume_success)
  have ok: "messages ?s' = remove1 TypingIndicator (messages s) @ [Message Bot r] \<and>
      trace ?s' = trace s @ [AssignConversationId cid] @ ?hid @ [AppendChild (Message Bot r)]"
    if "\<not> ToString_throws r"
    by (simp add: resume_success [OF assms that, of code s])
  have bad: "messages ?s' = remove1 TypingIndicator (remove1 TypingIndicator (messages s))
        @ [Message Bot (String error_text)] \<and>
      trace ?s' = trace s @ [AssignConversationId cid] @ ?hid
        @ ([ConsoleError TypeError]
           @ (if TypingIndicator \<in> set (remove1 TypingIndicator (messages s))
              then [RemoveChild TypingIndicator] else [])
           @ [AppendChild (Message Bot (String error_text))])"
    if "ToString_throws r"
    by (simp add: resume_render_throws [OF assms that, of code s] catch_block_trace hide_trace
        emit_def)
  have 2: "\<exists>rest. trace ?s' = trace s @ [AssignConversationId cid] @ ?hid @ rest"
  proof (cases "ToString_throws r")
    case True
    from bad [OF this] show ?thesis by blast
  next
    case False
    from ok [OF this] show ?thesis by blast
  qed
  have 3: "fetches (step (step ?s' (UserInput v)) SubmitEvent)
      = fetches s @ [chat_request (trim v) cid]" if "trim v \<noteq> []" for v
  proof -
    let ?t = "?s'\<lparr>inputValue := v\<rparr>"
    have "trim (inputValue ?t) = trim v" by simp
    from fetches_submit [OF this that]
    have "fetches (submit_listener ?t) = fetches ?t @ [chat_request (trim v) (conversationId ?t)]" .
    moreover have "fetches ?t = fetches s" by (simp add: fetches_resume)
    moreover have "conversationId ?t = cid" using 1 by simp
    ultimately show ?thesis by simp
  qed
  have 4: "plain_json cid \<longrightarrow> JSON_stringify cid = cid"
    by (simp add: JSON_stringify_plain)
  from 1 2 ok bad 3 4 req_body_chat_request show ?thesis by blast
qed

theorem success_response_rendered_witness:
  "(let s = step (step (page_loaded (String (js ''Hi''))) (UserInput (js ''a''))) SubmitEvent;
       s' = sendMessage_resume (Resolved 200 (Inr (Object [(js ''status'', String (js ''success'')),
              (js ''conversation_id'', String (js ''abc123'')),
              (js ''response'', String (js ''Hallo!''))]))) s
    in conversationId s' = String (js ''abc123'') \<and>
       messages s' = [Message Bot (String (js ''Hi'')), Message User (String (js ''a'')),
         Message Bot (String (js ''Hallo!''))] \<and>
       trace s' = trace s @ [AssignConversationId (String (js ''abc123'')),
         RemoveChild TypingIndicator, AppendChild (Message Bot (String (js ''Hallo!'')))] \<and>
       fetches (step (step s' (UserInput (js ''b''))) SubmitEvent)
         = fetches s @ [chat_request (js ''b'') (String (js ''abc123''))] \<and>
       req_body (chat_request (js ''b'') (String (js ''abc123'')))
         = Object [(js ''message'', String (js ''b'')),
             (js ''conversation_id'', String (js ''abc123''))])"
proof -
  let ?s = "step (step (page_loaded (String (js ''Hi''))) (UserInput (js ''a''))) SubmitEvent"
  let ?data = "Object [(js ''status'', String (js ''success'')),
              (js ''conversation_id'', String (js ''abc123'')),
              (js ''response'', String (js ''Hallo!''))]"
  let ?cid = "String (js ''abc123'')"
  have g: "Get ?data (js ''status'') = Inr (String (js ''success''))"
    "Get ?data (js ''conversation_id'') = Inr ?cid"
    "Get ?data (js ''response'') = Inr (String (js ''Hallo!''))"
    by (simp_all add: js_def)
  have rd: "\<not> ToString_throws (String (js ''Hallo!''))" by simp
  have pl: "plain_json ?cid" and df: "?cid \<noteq> Undefined" by simp_all
  have m: "messages ?s = [Message Bot (String (js ''Hi'')), Message User (String (js ''a'')),
      TypingIndicator]"
    by code_simp
  have b: "trim (js ''b'') = js ''b''" "js ''b'' \<noteq> []" by code_simp+
  note a = success_response_rendered [OF g, of 200 ?s]
  from a have 1: "conversationId (sendMessage_resume (Resolved 200 (Inr ?data)) ?s) = ?cid"
    by blast
  from a rd have "messages (sendMessage_resume (Resolved 200 (Inr ?data)) ?s)
      = remove1 TypingIndicator (messages ?s) @ [Message Bot (String (js ''Hallo!''))]" by blast
  then have 2: "messages (sendMessage_resume (Resolved 200 (Inr ?data)) ?s)
      = [Message Bot (String (js ''Hi'')), Message User (String (js ''a'')),
         Message Bot (String (js ''Hallo!''))]"
    by (simp only: m) simp
  from a rd have "trace (sendMessage_resume (Resolved 200 (Inr ?data)) ?s)
      = trace ?s @ [AssignConversationId ?cid]
         @ (if TypingIndicator \<in> set (messages ?s) then [RemoveChild TypingIndicator] else [])
         @ [AppendChild (Message Bot (String (js ''Hallo!'')))]" by blast
  then have 3: "trace (sendMessage_resume (Resolved 200 (Inr ?data)) ?s)
      = trace ?s @ [AssignConversationId ?cid,
         RemoveChild TypingIndicator, AppendChild (Message Bot (String (js ''Hallo!'')))]"
    by (simp only: m) simp
  from a b have 4: "fetches (step (step (sendMessage_resume (Resolved 200 (Inr ?data)) ?s)
        (UserInput (js ''b''))) SubmitEvent)
      = fetches ?s @ [chat_request (js ''b'') ?cid]"
    by metis
  from a have "req_body (chat_request (js ''b'') ?cid) =
        (if ?cid = Undefined then Object [(js ''message'', String (js ''b''))]
         else Object [(js ''message'', String (js ''b'')),
                (js ''conversation_id'', JSON_stringify ?cid)])"
    by blast
  moreover from a pl have "JSON_stringify ?cid = ?cid" by blast
  ultimately have 5: "req_body (chat_request (js ''b'') ?cid)
      = Object [(js ''message'', String (js ''b'')), (js ''conversation_id'', ?cid)]"
    using df by simp
  from 1 2 3 4 5 show ?thesis unfolding Let_def by blast
qed

text \<open>
  The claim as it stands fails twice. The body
  \<^verbatim>\<open>{"status": "success", "conversation_id": "abc123", "response": {"toString": 0}}\<close>
  has the success marker, but assigning its response to \<^verbatim>\<open>textContent\<close> throws inside
  the \<^verbatim>\<open>try\<close> block; the catch block then renders the fixed error text, and no bot
  message with the response appears. And after the body
  \<^verbatim>\<open>{"status": "success", "conversation_id": 1e999, "response": "Hallo!"}\<close> the stored
  identifier is the positive infinity, which the next request carries as \<^verbatim>\<open>null\<close>.
\<close>

theorem success_response_counterexample:
  "messages (step (step (step (page_loaded (String (js ''Hi''))) (UserInput (js ''a''))) SubmitEvent)
      (Settled (Resolved 200 (Inr (Object [(js ''status'', String (js ''success'')),
         (js ''conversation_id'', String (js ''abc123'')),
         (js ''response'', Object [(js ''toString'', Number (Finite 0))])])))))
   = [Message Bot (String (js ''Hi'')), Message User (String (js ''a'')),
      Message Bot (String error_text)] \<and>
   conversationId (step (step (step (page_loaded (String (js ''Hi''))) (UserInput (js ''a'')))
      SubmitEvent)
      (Settled (Resolved 200 (Inr (Object [(js ''status'', String (js ''success'')),
         (js ''conversation_id'', Number PosInfinity),
         (js ''response'', String (js ''Hallo!''))])))))
   = Number PosInfinity \<and>
   map req_body (fetches (step (step (step (step (step (page_loaded (String (js ''Hi'')))
      (UserInput (js ''a''))) SubmitEvent)
      (Settled (Resolved 200 (Inr (Object [(js ''status'', String (js ''success'')),
         (js ''conversation_id'', Number PosInfinity),
         (js ''response'', String (js ''Hallo!''))])))))
      (UserInput (js ''b''))) SubmitEvent))
   = [Object [(js ''message'', String (js ''a'')), (js ''conversation_id'', Null)],
      Object [(js ''message'', String (js ''b'')), (js ''conversation_id'', Null)]]"
  by code_simp

subsection \<open>A failed exchange\<close>

text \<open>
  C2. An exchange fails when \<^verbatim>\<open>fetch\<close> rejects, when the body cannot be parsed, or when
  the parsed body does not carry the success marker. In each case the first typing
  indicator is removed and the one fixed error text is appended as a bot message: the
  message list afterwards is the same whatever the cause and whatever the server sent, so
  the server's error text is not in it. The stored identifier is unchanged. The exception
  goes to \<^verbatim>\<open>console.error\<close> before the list changes; for a body with a non-empty
  string in its \<^verbatim>\<open>error\<close> field, the logged exception is an \<^verbatim>\<open>Error\<close> with that
  string.
\<close>

theorem failure_renders_fixed_error:
  assumes "\<not> succeeds r"
  shows "messages (sendMessage_resume r s)
       = remove1 TypingIndicator (messages s) @ [Message Bot (String error_text)] \<and>
     conversationId (sendMessage_resume r s) = conversationId s \<and>
     (\<exists>e. trace (sendMessage_resume r s)
        = trace s @ [ConsoleError e]
          @ (if TypingIndicator \<in> set (messages s) then [RemoveChild TypingIndicator] else [])
          @ [AppendChild (Message Bot (String error_text))]) \<and>
     (\<forall>code data status txt.
        r = Resolved code (Inr data) \<and> Get data (js ''status'') = Inr status \<and>
        Get data (js ''error'') = Inr (String txt) \<and> txt \<noteq> [] \<longrightarrow>
        trace (sendMessage_resume r s)
          = trace s @ [ConsoleError (Error (String txt))]
            @ (if TypingIndicator \<in> set (messages s) then [RemoveChild TypingIndicator] else [])
            @ [AppendChild (Message Bot (String error_text))])"
proof -
  let ?s0 = "s\<lparr>inflight := inflight s - 1\<rparr>"
  from assms obtain e where e: "sendMessage_resume r s = catch_block e ?s0"
    using resume_failure by blast
  have 1: "messages (sendMessage_resume r s)
       = remove1 TypingIndicator (messages s) @ [Message Bot (String error_text)]"
    by (simp add: e)
  have 2: "conversationId (sendMessage_resume r s) = conversationId s"
    by (simp add: e)
  have 3: "\<exists>e. trace (sendMessage_resume r s)
        = trace s @ [ConsoleError e]
          @ (if TypingIndicator \<in> set (messages s) then [RemoveChild TypingIndicator] else [])
          @ [AppendChild (Message Bot (String error_text))]"
    by (rule exI [of _ e]) (simp add: e catch_block_trace)
  have 4: "trace (sendMessage_resume r s)
          = trace s @ [ConsoleError (Error (String msg))]
            @ (if TypingIndicator \<in> set (messages s) then [RemoveChild TypingIndicator] else [])
            @ [AppendChild (Message Bot (String error_text))]"
    if r: "r = Resolved code (Inr data)" and st: "Get data (js ''status'') = Inr status"
      and err: "Get data (js ''error'') = Inr (String msg)" and ne: "msg \<noteq> []"
    for code data status msg
  proof -
    from assms r st have "status \<noteq> String (js ''success'')" by simp
    from try_block_logs_error [OF st this err ne]
    have "try_block data ?s0 = (?s0, Some (Error (String msg)))" .
    with r have "sendMessage_resume r s = catch_block (Error (String msg)) ?s0"
      by (simp add: sendMessage_resume_def)
    then show ?thesis by (simp add: catch_block_trace)
  qed
  from 1 2 3 4 show ?thesis by blast
qed

theorem failure_renders_fixed_error_witness:
  "(let s = step (step (page_loaded (String (js ''Hi''))) (UserInput (js ''a''))) SubmitEvent;
       boom = Resolved 200 (Inr (Object [(js ''status'', String (js ''error'')),
                (js ''error'', String (js ''boom''))]))
    in messages (sendMessage_resume boom s)
         = [Message Bot (String (js ''Hi'')), Message User (String (js ''a'')),
            Message Bot (String error_text)] \<and>
       messages (sendMessage_resume (Rejected TypeError) s) = messages (sendMessage_resume boom s) \<and>
       messages (sendMessage_resume (Resolved 200 (Inl SyntaxError)) s)
         = messages (sendMessage_resume boom s) \<and>
       trace (sendMessage_resume boom s)
         = trace s @ [ConsoleError (Error (String (js ''boom''))), RemoveChild TypingIndicator,
             AppendChild (Message Bot (String error_text))])"
proof -
  let ?s = "step (step (page_loaded (String (js ''Hi''))) (UserInput (js ''a''))) SubmitEvent"
  let ?data = "Object [(js ''status'', String (js ''error'')), (js ''error'', String (js ''boom''))]"
  let ?boom = "Resolved 200 (Inr ?data)"
  have f1: "\<not> succeeds ?boom" by (simp add: js_def)
  have f2: "\<not> succeeds (Rejected TypeError)" by simp
  have f3: "\<not> succeeds (Resolved 200 (Inl SyntaxError))" by simp
  have m: "messages ?s = [Message Bot (String (js ''Hi'')), Message User (String (js ''a'')),
      TypingIndicator]"
    by code_simp
  have g: "Get ?data (js ''status'') = Inr (String (js ''error''))"
    "Get ?data (js ''error'') = Inr (String (js ''boom''))" "js ''boom'' \<noteq> []"
    by (simp_all add: js_def)
  note a1 = failure_renders_fixed_error [OF f1, of ?s]
  note a2 = failure_renders_fixed_error [OF f2, of ?s]
  note a3 = failure_renders_fixed_error [OF f3, of ?s]
  have b1: "messages (sendMessage_resume ?boom ?s)
      = remove1 TypingIndicator (messages ?s) @ [Message Bot (String error_text)]"
    by (rule conjunct1 [OF a1])
  have b2: "messages (sendMessage_resume (Rejected TypeError) ?s)
      = remove1 TypingIndicator (messages ?s) @ [Message Bot (String error_text)]"
    by (rule conjunct1 [OF a2])
  have b3: "messages (sendMessage_resume (Resolved 200 (Inl SyntaxError)) ?s)
      = remove1 TypingIndicator (messages ?s) @ [Message Bot (String error_text)]"
    by (rule conjunct1 [OF a3])
  from a1 g have t: "trace (sendMessage_resume ?boom ?s)
         = trace ?s @ [ConsoleError (Error (String (js ''boom'')))]
            @ (if TypingIndicator \<in> set (messages ?s) then [RemoveChild TypingIndicator] else [])
            @ [AppendChild (Message Bot (String error_text))]"
    by blast
  have c1: "messages (sendMessage_resume ?boom ?s)
         = [Message Bot (String (js ''Hi'')), Message User (String (js ''a'')),
            Message Bot (String error_text)]"
    by (simp only: b1 m) simp
  have c4: "trace (sendMessage_resume ?boom ?s)
         = trace ?s @ [ConsoleError (Error (String (js ''boom''))), RemoveChild TypingIndicator,
             AppendChild (Message Bot (String error_text))]"
    by (simp only: t m) simp
  have d2: "messages (sendMessage_resume (Rejected TypeError) ?s)
      = messages (sendMessage_resume ?boom ?s)"
    by (simp only: b1 b2)
  have d3: "messages (sendMessage_resume (Resolved 200 (Inl SyntaxError)) ?s)
      = messages (sendMessage_resume ?boom ?s)"
    by (simp only: b1 b3)
  from c1 d2 d3 c4 show ?thesis
    unfolding Let_def by blast
qed

subsection \<open>Blank input\<close>

text \<open>
  C3. When the input field is empty or holds only white space (the code units
  \<^verbatim>\<open>trim\<close> strips), a submission by any of the three triggers changes nothing: no
  node is appended, no request is sent, the state is the one before.
\<close>

theorem blank_submission_is_noop:
  assumes "\<forall>c \<in> set (inputValue s). is_whitespace c"
  shows "submit_listener s = s \<and> step s SubmitEvent = s \<and> step s Click = s
     \<and> step s (KeyPress (js ''Enter'') False) = s"
proof -
  from assms have "trim (inputValue s) = []" by (simp only: trim_Nil_iff)
  then have "submit_listener s = s" by (simp add: submit_listener_def)
  then show ?thesis by (simp add: click_listener_def keypress_listener_def)
qed

theorem blank_submission_is_noop_witness:
  "(let s = step (page_loaded (String (js ''Hallo''))) (UserInput [0x20, 0x09, 0xA0, 0x2003])
    in step s SubmitEvent = s \<and> messages (step s Click) = messages s
       \<and> fetches (step s (KeyPress (js ''Enter'') False)) = [])"
proof -
  let ?s = "step (page_loaded (String (js ''Hallo''))) (UserInput [0x20, 0x09, 0xA0, 0x2003])"
  have ws: "\<forall>c \<in> set (inputValue ?s). is_whitespace c" by (simp add: is_whitespace_def)
  have "fetches ?s = []" by code_simp
  with blank_submission_is_noop [OF ws] show ?thesis by (simp add: Let_def)
qed

subsection \<open>The order of rendering\<close>




subsection \<open>The request\<close>

text \<open>
  C5, as amended. Every call of \<^verbatim>\<open>sendMessage\<close> sends exactly one request, and the
  handling of its response sends none. The request is a POST to \<^verbatim>\<open>/api/chat\<close> with the
  one header \<^verbatim>\<open>Content-Type: application/json\<close>. Its body has the field
  \<^verbatim>\<open>message\<close> with the submitted text and, unless the stored identifier is
  \<^verbatim>\<open>undefined\<close>, the field \<^verbatim>\<open>conversation_id\<close> with the stored identifier as
  \<^verbatim>\<open>JSON.stringify\<close> writes it; when the stored identifier is \<^verbatim>\<open>undefined\<close> the
  body has the field \<^verbatim>\<open>message\<close> only. What \<^verbatim>\<open>JSON.stringify\<close> writes is never
  \<^verbatim>\<open>undefined\<close> for an identifier that is not, and is the identifier itself when
  nothing in it is \<^verbatim>\<open>undefined\<close>, an infinity or the negative zero: so for
  \<^verbatim>\<open>null\<close> and for every string. The stored identifier is \<^verbatim>\<open>null\<close> as long as no
  response with the success marker has arrived.
\<close>

theorem exchange_request:
  "fetches (sendMessage m s) = fetches s @ [chat_request m (conversationId s)] \<and>
   fetches (sendMessage_resume r s) = fetches s \<and>
   req_method (chat_request m cid) = js ''POST'' \<and>
   req_url (chat_request m cid) = js ''/api/chat'' \<and>
   req_headers (chat_request m cid) = [(js ''Content-Type'', js ''application/json'')] \<and>
   req_body (chat_request m cid) =
     (if cid = Undefined then Object [(js ''message'', String m)]
      else Object [(js ''message'', String m), (js ''conversation_id'', JSON_stringify cid)]) \<and>
   (cid \<noteq> Undefined \<longrightarrow> JSON_stringify cid \<noteq> Undefined) \<and>
   (plain_json cid \<longrightarrow> JSON_stringify cid = cid) \<and>
   JSON_stringify Null = Null \<and> JSON_stringify (String x) = String x \<and>
   (\<forall>es s'. run (page_loaded G) es = Some s' \<and> (\<forall>r. Settled r \<in> set es \<longrightarrow> \<not> succeeds r)
      \<longrightarrow> conversationId s' = Null)"
proof -
  have "conversationId s' = Null"
    if "run (page_loaded G) es = Some s'" and "\<forall>r. Settled r \<in> set es \<longrightarrow> \<not> succeeds r"
    for es s'
    using conversationId_run_no_success [OF that] by simp
  then have null: "\<forall>es s'. run (page_loaded G) es = Some s'
      \<and> (\<forall>r. Settled r \<in> set es \<longrightarrow> \<not> succeeds r) \<longrightarrow> conversationId s' = Null"
    by blast
  have req: "req_method (chat_request m cid) = js ''POST''"
    "req_url (chat_request m cid) = js ''/api/chat''"
    "req_headers (chat_request m cid) = [(js ''Content-Type'', js ''application/json'')]"
    by (simp_all add: chat_request_def)
  have js: "cid \<noteq> Undefined \<longrightarrow> JSON_stringify cid \<noteq> Undefined"
    "plain_json cid \<longrightarrow> JSON_stringify cid = cid"
    "JSON_stringify Null = Null" "JSON_stringify (String x) = String x"
    by (simp_all add: JSON_stringify_defined JSON_stringify_plain)
  from null req js fetches_sendMessage [of m s] fetches_resume [of r s]
    req_body_chat_request [of m cid]
  show ?thesis by blast
qed

theorem exchange_request_witness:
  "(let s = step (step (page_loaded (String (js ''Hi''))) (UserInput (js ''a''))) SubmitEvent
    in conversationId s = Null \<and>
       fetches s = [chat_request (js ''a'') Null] \<and>
       req_body (chat_request (js ''a'') Null)
         = Object [(js ''message'', String (js ''a'')), (js ''conversation_id'', Null)] \<and>
       fetches (sendMessage (js ''b'') s) = [chat_request (js ''a'') Null, chat_request (js ''b'') Null])"
proof -
  let ?G = "String (js ''Hi'')"
  let ?s = "step (step (page_loaded ?G) (UserInput (js ''a''))) SubmitEvent"
  have r: "run (page_loaded ?G) [UserInput (js ''a''), SubmitEvent] = Some ?s" by simp
  have n: "\<forall>r. Settled r \<in> set [UserInput (js ''a''), SubmitEvent] \<longrightarrow> \<not> succeeds r" by simp
  note a = exchange_request [of "js ''b''" ?s _ Null _ ?G]
  from a r n have 1: "conversationId ?s = Null" by blast
  have 2: "fetches ?s = [chat_request (js ''a'') Null]" by code_simp
  from exchange_request [of "js ''a''" ?s _ Null _ ?G]
  have 3: "req_body (chat_request (js ''a'') Null)
         = Object [(js ''message'', String (js ''a'')), (js ''conversation_id'', Null)]"
    by simp
  from a have "fetches (sendMessage (js ''b'') ?s)
      = fetches ?s @ [chat_request (js ''b'') (conversationId ?s)]" by blast
  then have 4: "fetches (sendMessage (js ''b'') ?s)
      = [chat_request (js ''a'') Null, chat_request (js ''b'') Null]"
    by (simp only: 1 2) simp
  from 1 2 3 4 show ?thesis unfolding Let_def by blast
qed

text \<open>
  After a response with the success marker and no \<^verbatim>\<open>conversation_id\<close> field the stored
  identifier is \<^verbatim>\<open>undefined\<close>, and the body of the next request has one field, not two.
  After one whose \<^verbatim>\<open>conversation_id\<close> is \<^verbatim>\<open>1e999\<close> the stored identifier is the
  positive infinity, and the \<^verbatim>\<open>conversation_id\<close> of the next body is \<^verbatim>\<open>null\<close>, not
  the stored identifier.
\<close>

theorem exchange_request_counterexample:
  "map req_body (fetches
     (step (step (step (step (step (page_loaded (String (js ''Hi''))) (UserInput (js ''a'')))
        SubmitEvent)
        (Settled (Resolved 200 (Inr (Object [(js ''status'', String (js ''success'')),
           (js ''response'', String (js ''Hallo!''))])))))
        (UserInput (js ''b''))) SubmitEvent))
   = [Object [(js ''message'', String (js ''a'')), (js ''conversation_id'', Null)],
      Object [(js ''message'', String (js ''b''))]] \<and>
   conversationId
     (step (step (step (page_loaded (String (js ''Hi''))) (UserInput (js ''a''))) SubmitEvent)
        (Settled (Resolved 200 (Inr (Object [(js ''status'', String (js ''success'')),
           (js ''conversation_id'', Number PosInfinity),
           (js ''response'', String (js ''Hallo!''))])))))
   = Number PosInfinity \<and>
   req_body (chat_request (js ''b'') (Number PosInfinity))
   = Object [(js ''message'', String (js ''b'')), (js ''conversation_id'', Null)]"
  by code_simp

subsection \<open>The stored identifier\<close>

text \<open>
  C6, as amended. Once the stored identifier is neither \<^verbatim>\<open>null\<close> nor
  \<^verbatim>\<open>undefined\<close>, it stays so through every later sequence of inputs, submissions and
  responses in which each response with the success marker carries a
  \<^verbatim>\<open>conversation_id\<close> that is neither \<^verbatim>\<open>null\<close> nor missing.
\<close>

theorem conversationId_kept:
  assumes "run s es = Some s'"
    and "conversationId s \<noteq> Null \<and> conversationId s \<noteq> Undefined"
    and "\<forall>code data. Settled (Resolved code (Inr data)) \<in> set es \<longrightarrow>
           Get data (js ''status'') = Inr (String (js ''success'')) \<longrightarrow>
           Get data (js ''conversation_id'') \<noteq> Inr Null \<and>
           Get data (js ''conversation_id'') \<noteq> Inr Undefined"
  shows "conversationId s' \<noteq> Null \<and> conversationId s' \<noteq> Undefined"
  using assms
proof (induction es arbitrary: s)
  case Nil
  then show ?case by simp
next
  case (Cons e es)
  from Cons.prems(1) have run: "run (step s e) es = Some s'"
    by (simp split: if_splits)
  have keep: "conversationId (step s e) \<noteq> Null \<and> conversationId (step s e) \<noteq> Undefined"
  proof (cases "\<exists>r. e = Settled r \<and> succeeds r")
    case False
    then have "conversationId (step s e) = conversationId s"
      by (intro conversationId_step) blast
    with Cons.prems(2) show ?thesis by simp
  next
    case True
    then obtain code data where e: "e = Settled (Resolved code (Inr data))"
      and st: "Get data (js ''status'') = Inr (String (js ''success''))"
      by (auto elim: succeeds.elims)
    from st obtain cid where cid: "Get data (js ''conversation_id'') = Inr cid"
      using Get_defined by blast
    from Cons.prems(3) e st cid have "cid \<noteq> Null \<and> cid \<noteq> Undefined" by auto
    moreover have "conversationId (step s e) = cid"
      using e conversationId_resume_success [OF st cid] by simp
    ultimately show ?thesis by simp
  qed
  from Cons.prems(3) have "\<forall>code data. Settled (Resolved code (Inr data)) \<in> set es \<longrightarrow>
           Get data (js ''status'') = Inr (String (js ''success'')) \<longrightarrow>
           Get data (js ''conversation_id'') \<noteq> Inr Null \<and>
           Get data (js ''conversation_id'') \<noteq> Inr Undefined"
    by simp
  from Cons.IH [OF run keep this] show ?case .
qed

theorem conversationId_kept_witness:
  "(let ok = Settled (Resolved 200 (Inr (Object [(js ''status'', String (js ''success'')),
              (js ''conversation_id'', String (js ''abc123'')),
              (js ''response'', String (js ''Hallo!''))])));
       boom = Settled (Resolved 500 (Inr (Object [(js ''status'', String (js ''error'')),
              (js ''error'', String (js ''boom''))])));
       s = step (step (step (page_loaded (String (js ''Hi''))) (UserInput (js ''a''))) SubmitEvent) ok;
       s' = step (step (step (step (step (step s (UserInput (js ''b''))) SubmitEvent) boom)
              (UserInput (js ''c''))) SubmitEvent) ok
    in conversationId s = String (js ''abc123'') \<and>
       conversationId s' \<noteq> Null \<and> conversationId s' \<noteq> Undefined)"
proof -
  let ?ok = "Settled (Resolved 200 (Inr (Object [(js ''status'', String (js ''success'')),
              (js ''conversation_id'', String (js ''abc123'')),
              (js ''response'', String (js ''Hallo!''))])))"
  let ?boom = "Settled (Resolved 500 (Inr (Object [(js ''status'', String (js ''error'')),
              (js ''error'', String (js ''boom''))])))"
  let ?s = "step (step (step (page_loaded (String (js ''Hi''))) (UserInput (js ''a''))) SubmitEvent) ?ok"
  let ?es = "[UserInput (js ''b''), SubmitEvent, ?boom, UserInput (js ''c''), SubmitEvent, ?ok]"
  let ?s' = "step (step (step (step (step (step ?s (UserInput (js ''b''))) SubmitEvent) ?boom)
              (UserInput (js ''c''))) SubmitEvent) ?ok"
  have c: "conversationId ?s = String (js ''abc123'')" by code_simp
  have r: "run ?s ?es = Some ?s'" by code_simp
  have i: "conversationId ?s \<noteq> Null \<and> conversationId ?s \<noteq> Undefined"
    by (simp only: c) simp
  have h: "\<forall>code data. Settled (Resolved code (Inr data)) \<in> set ?es \<longrightarrow>
           Get data (js ''status'') = Inr (String (js ''success'')) \<longrightarrow>
           Get data (js ''conversation_id'') \<noteq> Inr Null \<and>
           Get data (js ''conversation_id'') \<noteq> Inr Undefined"
    by (auto simp: js_def)
  from conversationId_kept [OF r i h] c show ?thesis
    unfolding Let_def by blast
qed

text \<open>
  The script stores whatever the response carries: after the identifier has been set to
  \<^verbatim>\<open>"abc123"\<close>, a later response with the success marker and
  \<^verbatim>\<open>"conversation_id": null\<close> sets it back to \<^verbatim>\<open>null\<close>.
\<close>

theorem conversationId_cleared_counterexample:
  "map_option conversationId
     (run (page_loaded (String (js ''Hi'')))
        [UserInput (js ''a''), SubmitEvent,
         Settled (Resolved 200 (Inr (Object [(js ''status'', String (js ''success'')),
            (js ''conversation_id'', String (js ''abc123'')),
            (js ''response'', String (js ''Hallo!''))])))])
     = Some (String (js ''abc123'')) \<and>
   map_option conversationId
     (run (page_loaded (String (js ''Hi'')))
        [UserInput (js ''a''), SubmitEvent,
         Settled (Resolved 200 (Inr (Object [(js ''status'', String (js ''success'')),
            (js ''conversation_id'', String (js ''abc123'')),
            (js ''response'', String (js ''Hallo!''))]))),
         UserInput (js ''b''), SubmitEvent,
         Settled (Resolved 200 (Inr (Object [(js ''status'', String (js ''success'')),
            (js ''conversation_id'', Null),
            (js ''response'', String (js ''Hallo!''))])))])
     = Some Null"
  by code_simp

subsection \<open>How many typing indicators\<close>

text \<open>
  C7, as amended. In every state a page session can reach, the message list holds at most
  as many typing indicators as there are exchanges in flight; so it holds at most one
  while at most one exchange is in flight.
\<close>

theorem indicators_le_inflight:
  assumes "run (page_loaded G) es = Some s"
  shows "indicators s \<le> inflight s \<and> (inflight s \<le> 1 \<longrightarrow> indicators s \<le> 1)"
proof -
  have "indicators (page_loaded G) \<le> inflight (page_loaded G)"
    by (simp add: page_loaded_indicators)
  with assms have "indicators s \<le> inflight s" by (rule indicators_run_le)
  then show ?thesis by simp
qed

theorem indicators_le_inflight_witness:
  "(let es = [UserInput (js ''a''), SubmitEvent,
         Settled (Resolved 200 (Inr (Object [(js ''status'', String (js ''success'')),
            (js ''conversation_id'', String (js ''abc123'')),
            (js ''response'', String (js ''Hallo!''))]))),
         UserInput (js ''b''), SubmitEvent];
       s = step (step (step (step (step (page_loaded (String (js ''Hi''))) (UserInput (js ''a'')))
             SubmitEvent)
             (Settled (Resolved 200 (Inr (Object [(js ''status'', String (js ''success'')),
               (js ''conversation_id'', String (js ''abc123'')),
               (js ''response'', String (js ''Hallo!''))])))))
             (UserInput (js ''b''))) SubmitEvent
    in run (page_loaded (String (js ''Hi''))) es = Some s \<and> inflight s = 1 \<and> indicators s \<le> 1)"
proof -
  let ?es = "[UserInput (js ''a''), SubmitEvent,
         Settled (Resolved 200 (Inr (Object [(js ''status'', String (js ''success'')),
            (js ''conversation_id'', String (js ''abc123'')),
            (js ''response'', String (js ''Hallo!''))]))),
         UserInput (js ''b''), SubmitEvent]"
  let ?s = "step (step (step (step (step (page_loaded (String (js ''Hi''))) (UserInput (js ''a'')))
             SubmitEvent)
             (Settled (Resolved 200 (Inr (Object [(js ''status'', String (js ''success'')),
               (js ''conversation_id'', String (js ''abc123'')),
               (js ''response'', String (js ''Hallo!''))])))))
             (UserInput (js ''b''))) SubmitEvent"
  have r: "run (page_loaded (String (js ''Hi''))) ?es = Some ?s" by code_simp
  have i: "inflight ?s = 1" by code_simp
  have "inflight ?s \<le> 1" by (simp only: i)
  with indicators_le_inflight [OF r] have "indicators ?s \<le> 1" by blast
  with r i show ?thesis unfolding Let_def by blast
qed

text \<open>
  Nothing keeps the user from submitting again while an exchange is in flight, and every
  submission appends an indicator: after two submissions with no response in between the
  list holds two.
\<close>

theorem two_indicators_counterexample:
  "map_option indicators
     (run (page_loaded (String (js ''Hi'')))
        [UserInput (js ''a''), SubmitEvent, UserInput (js ''b''), SubmitEvent])
   = Some 2"
  by code_simp

subsection \<open>The three triggers\<close>

text \<open>
  C8. For an input value that is not empty, which for the listener means not empty once
  trimmed (input of white space only is the case of C3), a click on the send button, the
  Enter key without shift and a submit event of the form all lead to the same state: one
  user message with the trimmed text and one typing indicator are appended, and one request
  is sent, never two. The input field is empty afterwards, so a second submit event from
  the same gesture changes nothing.
\<close>

theorem triggers_submit_once:
  assumes "trim (inputValue s) = m" and "m \<noteq> []"
  shows "step s Click = step s SubmitEvent \<and>
     step s (KeyPress (js ''Enter'') False) = step s SubmitEvent \<and>
     messages (step s SubmitEvent) = messages s @ [Message User (String m), TypingIndicator] \<and>
     fetches (step s SubmitEvent) = fetches s @ [chat_request m (conversationId s)] \<and>
     step (step s SubmitEvent) SubmitEvent = step s SubmitEvent"
proof -
  note eq = submit_listener_eq [OF assms]
  have 1: "step s Click = step s SubmitEvent" by (simp add: click_listener_def)
  have 2: "step s (KeyPress (js ''Enter'') False) = step s SubmitEvent"
    by (simp add: keypress_listener_def)
  have 3: "messages (step s SubmitEvent) = messages s @ [Message User (String m), TypingIndicator]"
    by (simp add: eq)
  have 4: "fetches (step s SubmitEvent) = fetches s @ [chat_request m (conversationId s)]"
    using fetches_submit [OF assms] by simp
  have "inputValue (submit_listener s) = []" by (simp add: eq)
  then have "submit_listener (submit_listener s) = submit_listener s"
    by (simp add: submit_listener_def [of "submit_listener s"])
  then have 5: "step (step s SubmitEvent) SubmitEvent = step s SubmitEvent" by simp
  from 1 2 3 4 5 show ?thesis by blast
qed

theorem triggers_submit_once_witness:
  "(let s = step (page_loaded (String (js ''Hi''))) (UserInput (js '' Hallo ''))
    in step s Click = step s SubmitEvent \<and>
       step s (KeyPress (js ''Enter'') False) = step s SubmitEvent \<and>
       messages (step s Click)
         = [Message Bot (String (js ''Hi'')), Message User (String (js ''Hallo'')), TypingIndicator] \<and>
       fetches (step s Click) = [chat_request (js ''Hallo'') Null] \<and>
       step (step s Click) SubmitEvent = step s Click)"
proof -
  let ?s = "step (page_loaded (String (js ''Hi''))) (UserInput (js '' Hallo ''))"
  have t: "trim (inputValue ?s) = js ''Hallo''" and n: "js ''Hallo'' \<noteq> []" by code_simp+
  have m: "messages ?s = [Message Bot (String (js ''Hi''))]" and f: "fetches ?s = []"
    and c: "conversationId ?s = Null"
    by code_simp+
  note a = triggers_submit_once [OF t n]
  from a have 1: "step ?s Click = step ?s SubmitEvent" by blast
  from a have 2: "step ?s (KeyPress (js ''Enter'') False) = step ?s SubmitEvent" by blast
  from a have "messages (step ?s SubmitEvent)
      = messages ?s @ [Message User (String (js ''Hallo'')), TypingIndicator]" by blast
  then have 3: "messages (step ?s Click)
      = [Message Bot (String (js ''Hi'')), Message User (String (js ''Hallo'')), TypingIndicator]"
    by (simp only: 1 m) simp
  from a have "fetches (step ?s SubmitEvent)
      = fetches ?s @ [chat_request (js ''Hallo'') (conversationId ?s)]" by blast
  then have 4: "fetches (step ?s Click) = [chat_request (js ''Hallo'') Null]"
    by (simp only: 1 f c) simp
  from a have "step (step ?s SubmitEvent) SubmitEvent = step ?s SubmitEvent" by blast
  then have 5: "step (step ?s Click) SubmitEvent = step ?s Click" by (simp only: 1)
  from 1 2 3 4 5 show ?thesis unfolding Let_def by blast
qed

subsection \<open>The HTTP status code\<close>

text \<open>
  C9. The state \<^verbatim>\<open>sendMessage\<close> leaves does not depend on the HTTP status code of the
  response, only on its body, and what decides between success and failure is the
  \<^verbatim>\<open>status\<close> field of the parsed body. A body with the success marker is handled as a
  success whatever the code: the stored identifier becomes the body's
  \<^verbatim>\<open>conversation_id\<close>, and a response that can be turned into text is appended as a bot
  message in place of the first typing indicator. A body without the success marker, and
  a body that cannot be parsed, is handled as a failure whatever the code: the stored
  identifier stays as it is and the fixed error text is appended in place of the first
  typing indicator.
\<close>

theorem http_status_code_ignored:
  "sendMessage_resume (Resolved code body) s = sendMessage_resume (Resolved code' body) s \<and>
   (Get data (js ''status'') = Inr (String (js ''success'')) \<and>
    Get data (js ''conversation_id'') = Inr cid \<longrightarrow>
      conversationId (sendMessage_resume (Resolved code (Inr data)) s) = cid) \<and>
   (Get data (js ''status'') = Inr (String (js ''success'')) \<and>
    Get data (js ''conversation_id'') = Inr cid \<and>
    Get data (js ''response'') = Inr r \<and> \<not> ToString_throws r \<longrightarrow>
      messages (sendMessage_resume (Resolved code (Inr data)) s)
        = remove1 TypingIndicator (messages s) @ [Message Bot r]) \<and>
   (Get data (js ''status'') \<noteq> Inr (String (js ''success'')) \<longrightarrow>
      conversationId (sendMessage_resume (Resolved code (Inr data)) s) = conversationId s \<and>
      messages (sendMessage_resume (Resolved code (Inr data)) s)
        = remove1 TypingIndicator (messages s) @ [Message Bot (String error_text)]) \<and>
   conversationId (sendMessage_resume (Resolved code (Inl e)) s) = conversationId s \<and>
   messages (sendMessage_resume (Resolved code (Inl e)) s)
     = remove1 TypingIndicator (messages s) @ [Message Bot (String error_text)]"
proof -
  have 1: "sendMessage_resume (Resolved code body) s = sendMessage_resume (Resolved code' body) s"
    by (simp add: sendMessage_resume_def)
  have 2: "conversationId (sendMessage_resume (Resolved code (Inr data)) s) = cid"
    if "Get data (js ''status'') = Inr (String (js ''success''))"
      and "Get data (js ''conversation_id'') = Inr cid"
    using that by (rule conversationId_resume_success)
  have 3: "messages (sendMessage_resume (Resolved code (Inr data)) s)
        = remove1 TypingIndicator (messages s) @ [Message Bot r]"
    if "Get data (js ''status'') = Inr (String (js ''success''))"
      and "Get data (js ''conversation_id'') = Inr cid"
      and "Get data (js ''response'') = Inr r" and "\<not> ToString_throws r"
    by (simp add: resume_success [OF that])
  have fail: "conversationId (sendMessage_resume q s) = conversationId s \<and>
      messages (sendMessage_resume q s)
        = remove1 TypingIndicator (messages s) @ [Message Bot (String error_text)]"
    if "\<not> succeeds q" for q
  proof -
    from that obtain x where
      "sendMessage_resume q s = catch_block x (s\<lparr>inflight := inflight s - 1\<rparr>)"
      using resume_failure by blast
    then show ?thesis by simp
  qed
  have 4: "conversationId (sendMessage_resume (Resolved code (Inr data)) s) = conversationId s \<and>
      messages (sendMessage_resume (Resolved code (Inr data)) s)
        = remove1 TypingIndicator (messages s) @ [Message Bot (String error_text)]"
    if "Get data (js ''status'') \<noteq> Inr (String (js ''success''))"
    using that by (intro fail) simp
  have 5: "conversationId (sendMessage_resume (Resolved code (Inl e)) s) = conversationId s \<and>
      messages (sendMessage_resume (Resolved code (Inl e)) s)
        = remove1 TypingIndicator (messages s) @ [Message Bot (String error_text)]"
    by (intro fail) simp
  from 1 2 3 4 5 show ?thesis by blast
qed

theorem http_status_code_ignored_witness:
  "(let good = Object [(js ''status'', String (js ''success'')),
        (js ''conversation_id'', String (js ''abc123'')), (js ''response'', String (js ''Hallo!''))];
       bad = Object [(js ''status'', String (js ''error'')),
        (js ''conversation_id'', String (js ''abc123'')), (js ''response'', String (js ''Hallo!''))];
       s = step (step (page_loaded (String (js ''Hi''))) (UserInput (js ''a''))) SubmitEvent
    in conversationId (sendMessage_resume (Resolved 500 (Inr good)) s) = String (js ''abc123'') \<and>
       messages (sendMessage_resume (Resolved 500 (Inr good)) s)
         = remove1 TypingIndicator (messages s) @ [Message Bot (String (js ''Hallo!''))] \<and>
       sendMessage_resume (Resolved 500 (Inr good)) s
         = sendMessage_resume (Resolved 200 (Inr good)) s \<and>
       conversationId (sendMessage_resume (Resolved 200 (Inr bad)) s) = conversationId s \<and>
       messages (sendMessage_resume (Resolved 200 (Inr bad)) s)
         = remove1 TypingIndicator (messages s) @ [Message Bot (String error_text)])"
proof -
  let ?good = "Object [(js ''status'', String (js ''success'')),
        (js ''conversation_id'', String (js ''abc123'')), (js ''response'', String (js ''Hallo!''))]"
  let ?bad = "Object [(js ''status'', String (js ''error'')),
        (js ''conversation_id'', String (js ''abc123'')), (js ''response'', String (js ''Hallo!''))]"
  let ?s = "step (step (page_loaded (String (js ''Hi''))) (UserInput (js ''a''))) SubmitEvent"
  have h: "Get ?good (js ''status'') = Inr (String (js ''success'')) \<and>
    Get ?good (js ''conversation_id'') = Inr (String (js ''abc123'')) \<and>
    Get ?good (js ''response'') = Inr (String (js ''Hallo!'')) \<and>
    \<not> ToString_throws (String (js ''Hallo!''))"
    by (simp add: js_def)
  have n: "Get ?bad (js ''status'') \<noteq> Inr (String (js ''success''))"
    by (simp add: js_def)
  note a = http_status_code_ignored [where code = 500 and code' = 200 and body = "Inr ?good"
      and data = ?good and cid = "String (js ''abc123'')" and r = "String (js ''Hallo!'')"
      and s = ?s]
  note b = http_status_code_ignored [where code = 200 and data = ?bad and s = ?s]
  from a h have 1: "conversationId (sendMessage_resume (Resolved 500 (Inr ?good)) ?s)
      = String (js ''abc123'')" by blast
  from a h have 2: "messages (sendMessage_resume (Resolved 500 (Inr ?good)) ?s)
      = remove1 TypingIndicator (messages ?s) @ [Message Bot (String (js ''Hallo!''))]" by blast
  from a have 3: "sendMessage_resume (Resolved 500 (Inr ?good)) ?s
      = sendMessage_resume (Resolved 200 (Inr ?good)) ?s" by blast
  from b n have 4: "conversationId (sendMessage_resume (Resolved 200 (Inr ?bad)) ?s)
      = conversationId ?s" by blast
  from b n have 5: "messages (sendMessage_resume (Resolved 200 (Inr ?bad)) ?s)
      = remove1 TypingIndicator (messages ?s) @ [Message Bot (String error_text)]" by blast
  from 1 2 3 4 5 show ?thesis unfolding Let_def by blast
qed

subsection \<open>Hiding the typing indicator\<close>

text \<open>
  C10, as amended. Calling \<^verbatim>\<open>hideTypingIndicator\<close> when the message list holds no
  typing indicator leaves the whole state as it is. When the list holds at most one
  indicator, calling it twice has the effect of calling it once. In general each call
  removes the first indicator of the list and no more.
\<close>

theorem hideTypingIndicator_idempotent:
  "(TypingIndicator \<notin> set (messages s) \<longrightarrow> hideTypingIndicator s = s) \<and>
   (indicators s \<le> 1 \<longrightarrow>
      hideTypingIndicator (hideTypingIndicator s) = hideTypingIndicator s) \<and>
   messages (hideTypingIndicator s) = remove1 TypingIndicator (messages s)"
proof (intro conjI impI)
  assume "TypingIndicator \<notin> set (messages s)"
  then show "hideTypingIndicator s = s" by (rule hide_absent)
next
  assume "indicators s \<le> 1"
  then have "indicators (hideTypingIndicator s) = 0" by simp
  then have "TypingIndicator \<notin> set (messages (hideTypingIndicator s))"
    using indicators_0_iff by blast
  then show "hideTypingIndicator (hideTypingIndicator s) = hideTypingIndicator s"
    by (rule hide_absent)
next
  show "messages (hideTypingIndicator s) = remove1 TypingIndicator (messages s)" by simp
qed

theorem hideTypingIndicator_idempotent_witness:
  "indicators (step (step (page_loaded (String (js ''Hallo''))) (UserInput (js ''a''))) SubmitEvent) \<le> 1 \<and>
   hideTypingIndicator (hideTypingIndicator
       (step (step (page_loaded (String (js ''Hallo''))) (UserInput (js ''a''))) SubmitEvent))
     = hideTypingIndicator
       (step (step (page_loaded (String (js ''Hallo''))) (UserInput (js ''a''))) SubmitEvent) \<and>
   TypingIndicator \<notin> set (messages (page_loaded (String (js ''Hallo'')))) \<and>
   hideTypingIndicator (page_loaded (String (js ''Hallo''))) = page_loaded (String (js ''Hallo''))"
proof -
  let ?s0 = "page_loaded (String (js ''Hallo''))"
  let ?s1 = "step (step ?s0 (UserInput (js ''a''))) SubmitEvent"
  have one: "indicators ?s1 \<le> 1" by code_simp
  have none: "TypingIndicator \<notin> set (messages ?s0)" by code_simp
  from one none show ?thesis
    using hideTypingIndicator_idempotent [of ?s1] hideTypingIndicator_idempotent [of ?s0]
    by blast
qed

text \<open>
  Two submissions with no response in between leave two indicators; a second call then
  removes the second one, which a single call leaves in the list.
\<close>

theorem hideTypingIndicator_twice_counterexample:
  "messages (hideTypingIndicator (hideTypingIndicator
     (step (step (step (step (page_loaded (String (js ''Hallo''))) (UserInput (js ''a''))) SubmitEvent)
        (UserInput (js ''b''))) SubmitEvent)))
   \<noteq> messages (hideTypingIndicator
     (step (step (step (step (page_loaded (String (js ''Hallo''))) (UserInput (js ''a''))) SubmitEvent)
        (UserInput (js ''b''))) SubmitEvent))"
  by code_simp

end
